theory Spec2Isabelle
  imports Main
begin

section \<open>Olm event decryption (package crypto, decryptOlmEvent and its helpers)\<close>

text \<open>
  The Go code runs on an \<open>OlmMachine\<close> whose account, session store, sessions and
  logger are collaborators defined elsewhere. They are mutable objects reached through
  pointers, so the model keeps all of them in one opaque world \<open>'w\<close> and takes every
  collaborator method as a function on that world. Each call of a collaborator is also
  appended to a list of calls, with the result the collaborator gave, so that the order of
  the effects and the sessions that were tried can be stated.

  Pointers the code dereferences without a check (the event, the machine and its fields)
  are taken to be non-nil.
\<close>

subsection \<open>Identifiers and errors\<close>

type_synonym UserID = string
type_synonym DeviceID = string
type_synonym SenderKey = string
type_synonym Ed25519 = string
type_synonym Curve25519 = string

text \<open>A Go byte slice: \<open>None\<close> is the nil slice that line 78 tests for.\<close>

type_synonym bytes = "string option"

text \<open>
  \<open>id.OlmMsgType\<close> is an integer type with the two named values the code compares
  against; every other value is \<open>OlmMsgTypeUnknown\<close>.
\<close>

datatype OlmMsgType = OlmMsgTypePreKey | OlmMsgTypeMsg | OlmMsgTypeUnknown int

text \<open>
  The sentinel errors of lines 18 to 27, \<open>IncorrectEncryptedContentType\<close> (declared in
  another file of the package), the sentinel of package event for an unknown content type,
  an error made by a collaborator, and \<open>errors.Wrap\<close>, which builds a new error value
  around a cause.
\<close>

datatype error =
    UnsupportedAlgorithm
  | NotEncryptedForMe
  | UnsupportedOlmMessageType
  | DecryptionFailedWithMatchingSession
  | DecryptionFailedForNormalMessage
  | SenderMismatch
  | RecipientMismatch
  | RecipientKeyMismatch
  | IncorrectEncryptedContentType
  | UnsupportedContentType
  | External string
  | Wrap error string

text \<open>A pointer to an \<open>OlmSession\<close>; the session itself lives in the world.\<close>

type_synonym OlmSession = nat

subsection \<open>Events\<close>

record OlmCiphertext =
  ct_Type :: OlmMsgType
  ct_Body :: string

record EncryptedEventContent =
  Algorithm :: string
  enc_SenderKey :: SenderKey
  OlmCiphertext :: "string \<rightharpoonup> OlmCiphertext"

text \<open>
  The dynamic type of \<open>Content.Parsed\<close>: a pointer to an encrypted event content, or a
  value of any other content type (named by a string here).
\<close>

datatype ParsedContent =
    EncryptedContent EncryptedEventContent
  | OtherContent string

record Content =
  VeryRaw :: string
  Parsed :: "ParsedContent option"

record Event =
  evt_Sender :: UserID
  evt_Content :: Content

record OlmEventKeys =
  Ed25519 :: Ed25519

record OlmEvent =
  Source :: "Event option"
  SenderKey :: SenderKey
  Sender :: UserID
  SenderDevice :: DeviceID
  Keys :: OlmEventKeys
  Recipient :: UserID
  RecipientKeys :: OlmEventKeys
  Type :: string
  Content :: Content

text \<open>
  Modelled from the spec: the constant \<open>id.AlgorithmOlmV1\<close> is declared in package id,
  which is not among the source files; the spec calls it the Olm v1 algorithm tag. The
  theorems below use nothing of it but equality.
\<close>

definition AlgorithmOlmV1 :: string where
  "AlgorithmOlmV1 = ''m.olm.v1.curve25519-aes-sha2''"

subsection \<open>The machine and its collaborators\<close>

text \<open>
  What \<open>decryptOlmEvent\<close> and its helpers reach through \<open>mach\<close>: the client's user id,
  the account (\<open>IdentityKeys\<close>, a read of the world; \<open>NewInboundSessionFrom\<close>;
  \<open>SaveAccount\<close>, which returns nothing), the store (\<open>GetSessions\<close>, \<open>AddSession\<close>), the
  two session methods, and \<open>markDeviceForUnwedging\<close>. The record also carries the two
  functions of other packages that the code calls: \<open>json.Unmarshal\<close> into an \<open>OlmEvent\<close>
  and the type registry of package event.
\<close>

record 'w OlmMachine =
  client_UserID :: UserID
  IdentityKeys :: "'w \<Rightarrow> Ed25519 \<times> Curve25519"
  NewInboundSessionFrom :: "SenderKey \<Rightarrow> string \<Rightarrow> 'w \<Rightarrow> (error + OlmSession) \<times> 'w"
  SaveAccount :: "'w \<Rightarrow> 'w"
  GetSessions :: "SenderKey \<Rightarrow> 'w \<Rightarrow> (error + OlmSession list) \<times> 'w"
  AddSession :: "SenderKey \<Rightarrow> OlmSession \<Rightarrow> 'w \<Rightarrow> error option \<times> 'w"
  MatchesInboundSession :: "OlmSession \<Rightarrow> string \<Rightarrow> 'w \<Rightarrow> (error + bool) \<times> 'w"
  Decrypt :: "OlmSession \<Rightarrow> string \<Rightarrow> OlmMsgType \<Rightarrow> 'w \<Rightarrow> (error + bytes) \<times> 'w"
  markDeviceForUnwedging :: "UserID \<Rightarrow> SenderKey \<Rightarrow> 'w \<Rightarrow> 'w"
  json_Unmarshal :: "bytes \<Rightarrow> error + OlmEvent"
  TypeMap :: "string \<rightharpoonup> (string \<Rightarrow> string + ParsedContent)"

datatype call =
    GetSessionsCall SenderKey "error + OlmSession list"
  | MatchesInboundSessionCall OlmSession string "error + bool"
  | DecryptCall OlmSession string OlmMsgType "error + bytes"
  | NewInboundSessionFromCall SenderKey string "error + OlmSession"
  | SaveAccountCall
  | AddSessionCall SenderKey OlmSession "error option"
  | markDeviceForUnwedgingCall UserID SenderKey
  | LogWarnCall UserID SenderKey
  | LogErrorCall error

text \<open>
  The state a function is run in: the world, and the calls made so far, each with what the
  collaborator answered. The two log entries of the code are kept as calls as well.
\<close>

record 'w state =
  world :: 'w
  calls :: "call list"

definition call_GetSessions ::
  "'w OlmMachine \<Rightarrow> SenderKey \<Rightarrow> 'w state \<Rightarrow> (error + OlmSession list) \<times> 'w state" where
  "call_GetSessions mach senderKey st =
     (case GetSessions mach senderKey (world st) of
        (r, w) \<Rightarrow> (r, \<lparr>world = w, calls = calls st @ [GetSessionsCall senderKey r]\<rparr>))"

definition call_MatchesInboundSession ::
  "'w OlmMachine \<Rightarrow> OlmSession \<Rightarrow> string \<Rightarrow> 'w state \<Rightarrow> (error + bool) \<times> 'w state" where
  "call_MatchesInboundSession mach session ciphertext st =
     (case MatchesInboundSession mach session ciphertext (world st) of
        (r, w) \<Rightarrow>
          (r, \<lparr>world = w, calls = calls st @ [MatchesInboundSessionCall session ciphertext r]\<rparr>))"

definition call_Decrypt ::
  "'w OlmMachine \<Rightarrow> OlmSession \<Rightarrow> string \<Rightarrow> OlmMsgType \<Rightarrow> 'w state
     \<Rightarrow> (error + bytes) \<times> 'w state" where
  "call_Decrypt mach session ciphertext olmType st =
     (case Decrypt mach session ciphertext olmType (world st) of
        (r, w) \<Rightarrow>
          (r, \<lparr>world = w, calls = calls st @ [DecryptCall session ciphertext olmType r]\<rparr>))"

definition call_NewInboundSessionFrom ::
  "'w OlmMachine \<Rightarrow> SenderKey \<Rightarrow> string \<Rightarrow> 'w state \<Rightarrow> (error + OlmSession) \<times> 'w state" where
  "call_NewInboundSessionFrom mach senderKey ciphertext st =
     (case NewInboundSessionFrom mach senderKey ciphertext (world st) of
        (r, w) \<Rightarrow>
          (r, \<lparr>world = w,
               calls = calls st @ [NewInboundSessionFromCall senderKey ciphertext r]\<rparr>))"

definition call_SaveAccount :: "'w OlmMachine \<Rightarrow> 'w state \<Rightarrow> 'w state" where
  "call_SaveAccount mach st =
     \<lparr>world = SaveAccount mach (world st), calls = calls st @ [SaveAccountCall]\<rparr>"

definition call_AddSession ::
  "'w OlmMachine \<Rightarrow> SenderKey \<Rightarrow> OlmSession \<Rightarrow> 'w state \<Rightarrow> error option \<times> 'w state" where
  "call_AddSession mach senderKey session st =
     (case AddSession mach senderKey session (world st) of
        (r, w) \<Rightarrow> (r, \<lparr>world = w, calls = calls st @ [AddSessionCall senderKey session r]\<rparr>))"

definition call_markDeviceForUnwedging ::
  "'w OlmMachine \<Rightarrow> UserID \<Rightarrow> SenderKey \<Rightarrow> 'w state \<Rightarrow> 'w state" where
  "call_markDeviceForUnwedging mach sender senderKey st =
     \<lparr>world = markDeviceForUnwedging mach sender senderKey (world st),
      calls = calls st @ [markDeviceForUnwedgingCall sender senderKey]\<rparr>"

definition log_Warn :: "UserID \<Rightarrow> SenderKey \<Rightarrow> 'w state \<Rightarrow> 'w state" where
  "log_Warn sender senderKey st = st\<lparr>calls := calls st @ [LogWarnCall sender senderKey]\<rparr>"

definition log_Error :: "error \<Rightarrow> 'w state \<Rightarrow> 'w state" where
  "log_Error err st = st\<lparr>calls := calls st @ [LogErrorCall err]\<rparr>"

subsection \<open>Parsing the inner content\<close>

text \<open>
  Modelled from the spec: \<open>Content.ParseRaw\<close> and \<open>IsUnsupportedContentType\<close> belong to
  package event, which is not among the source files. The spec: the inner typed content is
  parsed against a type registry; an unrecognized type leaves the content opaque (raw);
  any other structural malformation is an error. The registry maps a declared type to the
  parser of its schema, and a parser's failure is reported as an \<open>External\<close> error.
\<close>

definition ParseRaw ::
  "(string \<rightharpoonup> (string \<Rightarrow> string + ParsedContent)) \<Rightarrow> string \<Rightarrow> Content
     \<Rightarrow> error option \<times> Content" where
  "ParseRaw registry evtType content =
     (case registry evtType of
        None \<Rightarrow> (Some UnsupportedContentType, content)
      | Some schema \<Rightarrow>
          (case schema (VeryRaw content) of
             Inl msg \<Rightarrow> (Some (External msg), content)
           | Inr parsed \<Rightarrow> (None, content\<lparr>Parsed := Some parsed\<rparr>)))"

definition IsUnsupportedContentType :: "error \<Rightarrow> bool" where
  "IsUnsupportedContentType err = (err = UnsupportedContentType)"

subsection \<open>tryDecryptOlmEvent (lines 122 to 146)\<close>

text \<open>
  The loop of lines 127 to 144 over the sessions the store returned. For a message that is
  not a pre-key message the structural check is skipped and the session is decrypted with
  at once, which the model writes as a check that answers true without a call.
\<close>

fun tryDecryptOlmEvent_loop ::
  "'w OlmMachine \<Rightarrow> OlmMsgType \<Rightarrow> string \<Rightarrow> OlmSession list \<Rightarrow> 'w state
     \<Rightarrow> (error + bytes) \<times> 'w state" where
  "tryDecryptOlmEvent_loop mach olmType ciphertext [] st = (Inr None, st)"
| "tryDecryptOlmEvent_loop mach olmType ciphertext (session # sessions) st =
     (case (if olmType = OlmMsgTypePreKey
            then call_MatchesInboundSession mach session ciphertext st
            else (Inr True, st)) of
        (Inl err, st1) \<Rightarrow>
          (Inl (Wrap err ''failed to check if ciphertext matches inbound session''), st1)
      | (Inr matches, st1) \<Rightarrow>
          if \<not> matches then tryDecryptOlmEvent_loop mach olmType ciphertext sessions st1
          else
            (case call_Decrypt mach session ciphertext olmType st1 of
               (Inl err, st2) \<Rightarrow>
                 if olmType = OlmMsgTypePreKey
                 then (Inl DecryptionFailedWithMatchingSession, st2)
                 else tryDecryptOlmEvent_loop mach olmType ciphertext sessions st2
             | (Inr plaintext, st2) \<Rightarrow> (Inr plaintext, st2)))"

definition tryDecryptOlmEvent ::
  "'w OlmMachine \<Rightarrow> SenderKey \<Rightarrow> OlmMsgType \<Rightarrow> string \<Rightarrow> 'w state
     \<Rightarrow> (error + bytes) \<times> 'w state" where
  "tryDecryptOlmEvent mach senderKey olmType ciphertext st =
     (case call_GetSessions mach senderKey st of
        (Inl err, st1) \<Rightarrow> (Inl (Wrap err (''failed to get session for '' @ senderKey)), st1)
      | (Inr sessions, st1) \<Rightarrow> tryDecryptOlmEvent_loop mach olmType ciphertext sessions st1)"

subsection \<open>createInboundSession (lines 148 to 159)\<close>

definition createInboundSession ::
  "'w OlmMachine \<Rightarrow> SenderKey \<Rightarrow> string \<Rightarrow> 'w state \<Rightarrow> (error + OlmSession) \<times> 'w state" where
  "createInboundSession mach senderKey ciphertext st =
     (case call_NewInboundSessionFrom mach senderKey ciphertext st of
        (Inl err, st1) \<Rightarrow> (Inl err, st1)
      | (Inr session, st1) \<Rightarrow>
          (case call_AddSession mach senderKey session (call_SaveAccount mach st1) of
             (Some err, st2) \<Rightarrow> (Inr session, log_Error err st2)
           | (None, st2) \<Rightarrow> (Inr session, st2)))"

subsection \<open>decryptOlmEvent (lines 63 to 120)\<close>

text \<open>
  Lines 64 to 96: from the ciphertext to the plaintext, by the stored sessions or by a
  session created from the pre-key message.
\<close>

definition decryptOlmEvent_plaintext ::
  "'w OlmMachine \<Rightarrow> Event \<Rightarrow> SenderKey \<Rightarrow> OlmMsgType \<Rightarrow> string \<Rightarrow> 'w state
     \<Rightarrow> (error + bytes) \<times> 'w state" where
  "decryptOlmEvent_plaintext mach evt senderKey olmType ciphertext st =
     (if olmType \<noteq> OlmMsgTypePreKey \<and> olmType \<noteq> OlmMsgTypeMsg
      then (Inl UnsupportedOlmMessageType, st)
      else
        (case tryDecryptOlmEvent mach senderKey olmType ciphertext st of
           (Inl err, st1) \<Rightarrow>
             (Inl (Wrap err ''failed to decrypt olm event''),
              if err = DecryptionFailedWithMatchingSession
              then call_markDeviceForUnwedging mach (evt_Sender evt) senderKey
                     (log_Warn (evt_Sender evt) senderKey st1)
              else st1)
         | (Inr plaintext, st1) \<Rightarrow>
             if plaintext = None then
               if olmType \<noteq> OlmMsgTypePreKey
               then (Inl DecryptionFailedForNormalMessage,
                     call_markDeviceForUnwedging mach (evt_Sender evt) senderKey st1)
               else
                 (case createInboundSession mach senderKey ciphertext st1 of
                    (Inl err, st2) \<Rightarrow>
                      (Inl (Wrap err ''failed to create new session from prekey message''),
                       call_markDeviceForUnwedging mach (evt_Sender evt) senderKey st2)
                  | (Inr session, st2) \<Rightarrow>
                      (case call_Decrypt mach session ciphertext olmType st2 of
                         (Inl err, st3) \<Rightarrow>
                           (Inl (Wrap err
                              ''failed to decrypt olm event with session created from prekey message''),
                            st3)
                       | (Inr plaintext', st3) \<Rightarrow> (Inr plaintext', st3)))
             else (Inr plaintext, st1)))"

text \<open>
  Lines 98 to 119: the plaintext is parsed as an \<open>OlmEvent\<close>, checked against the
  transport event and the local identity, and its content parsed by its declared type.
\<close>

definition decryptOlmEvent_payload ::
  "'w OlmMachine \<Rightarrow> Event \<Rightarrow> SenderKey \<Rightarrow> bytes \<Rightarrow> 'w state \<Rightarrow> error + OlmEvent" where
  "decryptOlmEvent_payload mach evt senderKey plaintext st =
     (case json_Unmarshal mach plaintext of
        Inl err \<Rightarrow> Inl (Wrap err ''failed to parse olm payload'')
      | Inr olmEvt \<Rightarrow>
          if evt_Sender evt \<noteq> Sender olmEvt then Inl SenderMismatch
          else if client_UserID mach \<noteq> Recipient olmEvt then Inl RecipientMismatch
          else if fst (IdentityKeys mach (world st)) \<noteq> Ed25519 (RecipientKeys olmEvt)
          then Inl RecipientKeyMismatch
          else
            (case ParseRaw (TypeMap mach) (Type olmEvt) (Content olmEvt) of
               (Some err, content) \<Rightarrow>
                 if \<not> IsUnsupportedContentType err
                 then Inl (Wrap err ''failed to parse content of olm payload event'')
                 else Inr (olmEvt\<lparr>Content := content, Source := Some evt,
                                   SenderKey := senderKey\<rparr>)
             | (None, content) \<Rightarrow>
                 Inr (olmEvt\<lparr>Content := content, Source := Some evt,
                              SenderKey := senderKey\<rparr>)))"

definition decryptOlmEvent ::
  "'w OlmMachine \<Rightarrow> Event \<Rightarrow> SenderKey \<Rightarrow> OlmMsgType \<Rightarrow> string \<Rightarrow> 'w state
     \<Rightarrow> (error + OlmEvent) \<times> 'w state" where
  "decryptOlmEvent mach evt senderKey olmType ciphertext st =
     (case decryptOlmEvent_plaintext mach evt senderKey olmType ciphertext st of
        (Inl err, st1) \<Rightarrow> (Inl err, st1)
      | (Inr plaintext, st1) \<Rightarrow>
          (decryptOlmEvent_payload mach evt senderKey plaintext st1, st1))"

subsection \<open>DecryptOlmEvent (lines 44 to 57)\<close>

definition DecryptOlmEvent ::
  "'w OlmMachine \<Rightarrow> Event \<Rightarrow> 'w state \<Rightarrow> (error + OlmEvent) \<times> 'w state" where
  "DecryptOlmEvent mach evt st =
     (case Parsed (evt_Content evt) of
        Some (EncryptedContent content) \<Rightarrow>
          if Algorithm content \<noteq> AlgorithmOlmV1 then (Inl UnsupportedAlgorithm, st)
          else
            (case OlmCiphertext content (snd (IdentityKeys mach (world st))) of
               None \<Rightarrow> (Inl NotEncryptedForMe, st)
             | Some ownContent \<Rightarrow>
                 decryptOlmEvent mach evt (enc_SenderKey content) (ct_Type ownContent)
                   (ct_Body ownContent) st)
      | _ \<Rightarrow> (Inl IncorrectEncryptedContentType, st))"

subsection \<open>Reading the list of calls\<close>

text \<open>
  \<open>is_unwedging\<close> recognises the unwedging signal. \<open>failed_decrypt c t x\<close> holds of a call
  that is a failed \<open>Decrypt\<close> of session \<open>x\<close> on ciphertext \<open>c\<close> with type \<open>t\<close>.
  \<open>skipped c pre\<close> are the calls of a trial pass over pre-key sessions that answered the
  structural check with false, and \<open>createInboundSession_calls\<close> the calls of a
  \<open>createInboundSession\<close> whose \<open>NewInboundSessionFrom\<close> succeeded.
\<close>

fun is_unwedging :: "call \<Rightarrow> bool" where
  "is_unwedging (markDeviceForUnwedgingCall sender senderKey) = True"
| "is_unwedging other = False"

fun failed_decrypt :: "string \<Rightarrow> OlmMsgType \<Rightarrow> OlmSession \<Rightarrow> call \<Rightarrow> bool" where
  "failed_decrypt c t x (DecryptCall s c' t' (Inl e)) = (s = x \<and> c' = c \<and> t' = t)"
| "failed_decrypt c t x other = False"

definition createInboundSession_calls ::
  "SenderKey \<Rightarrow> string \<Rightarrow> OlmSession \<Rightarrow> error option \<Rightarrow> call list" where
  "createInboundSession_calls senderKey ciphertext session added =
     [NewInboundSessionFromCall senderKey ciphertext (Inr session), SaveAccountCall,
      AddSessionCall senderKey session added] @
     (case added of None \<Rightarrow> [] | Some err \<Rightarrow> [LogErrorCall err])"

definition skipped :: "string \<Rightarrow> OlmSession list \<Rightarrow> call list" where
  "skipped ciphertext pre = map (\<lambda>x. MatchesInboundSessionCall x ciphertext (Inr False)) pre"

text \<open>
  \<open>all_skipped mach c pre w\<close> runs the structural check of the sessions of \<open>pre\<close> one
  after the other, the first in world \<open>w\<close> and each next one in the world the check before
  it left: it is the world after the last check when every check answered false, and
  \<open>None\<close> when one answered true or failed.
\<close>

fun all_skipped :: "'w OlmMachine \<Rightarrow> string \<Rightarrow> OlmSession list \<Rightarrow> 'w \<Rightarrow> 'w option" where
  "all_skipped mach ciphertext [] w = Some w"
| "all_skipped mach ciphertext (session # sessions) w =
     (case MatchesInboundSession mach session ciphertext w of
        (r, w') \<Rightarrow> if r = Inr False then all_skipped mach ciphertext sessions w' else None)"

subsection \<open>An example machine\<close>

text \<open>
  A machine whose world is the list of stored sessions. Session 3 cannot be checked
  against a pre-key message, sessions 2 and 4 match every pre-key message, sessions 4 and 9
  decrypt every ciphertext but \<open>corrupt\<close> to itself, and 9 is the session the account
  creates. The store holds at most two sessions. The local user is \<open>@bob\<close> with
  fingerprint key \<open>ACC1\<close> and identity key \<open>CURVE1\<close>.
\<close>

definition example_payload :: "UserID \<Rightarrow> string \<Rightarrow> string \<Rightarrow> OlmEvent" where
  "example_payload recipient evtType raw =
     \<lparr>Source = None, SenderKey = [], Sender = ''@alice'', SenderDevice = ''DEV1'',
      Keys = \<lparr>Ed25519 = ''SIGA''\<rparr>, Recipient = recipient,
      RecipientKeys = \<lparr>Ed25519 = ''ACC1''\<rparr>, Type = evtType,
      Content = \<lparr>VeryRaw = raw, Parsed = None\<rparr>\<rparr>"

definition example_mach :: "OlmSession list OlmMachine" where
  "example_mach =
     \<lparr>client_UserID = ''@bob'',
      IdentityKeys = (\<lambda>w. (''ACC1'', ''CURVE1'')),
      NewInboundSessionFrom =
        (\<lambda>senderKey ciphertext w.
           if ciphertext = ''bad'' then (Inl (External ''unknown one-time key''), w)
           else (Inr 9, w)),
      SaveAccount = (\<lambda>w. w),
      GetSessions = (\<lambda>senderKey w. (Inr w, w)),
      AddSession =
        (\<lambda>senderKey session w.
           if length w < 2 then (None, w @ [session])
           else (Some (External ''store full''), w)),
      MatchesInboundSession =
        (\<lambda>session ciphertext w.
           (if session = 3 then Inl (External ''bad pickle'')
            else Inr (session = 2 \<or> session = 4), w)),
      Decrypt =
        (\<lambda>session ciphertext olmType w.
           (if (session = 4 \<or> session = 9) \<and> ciphertext \<noteq> ''corrupt''
            then Inr (Some ciphertext) else Inl (External ''bad mac''), w)),
      markDeviceForUnwedging = (\<lambda>sender senderKey w. w),
      json_Unmarshal =
        (\<lambda>plaintext.
           if plaintext = Some ''msg'' then Inr (example_payload ''@bob'' ''m.room.message'' ''{}'')
           else if plaintext = Some ''custom'' then Inr (example_payload ''@bob'' ''x.custom'' ''{}'')
           else if plaintext = Some ''broken'' then Inr (example_payload ''@bob'' ''m.room.message'' ''['')
           else if plaintext = Some ''forged'' then Inr (example_payload ''@eve'' ''m.room.message'' ''{}'')
           else Inl (External ''invalid JSON'')),
      TypeMap =
        [''m.room.message'' \<mapsto>
           (\<lambda>raw. if raw = ''{}'' then Inr (OtherContent ''MessageEventContent'')
                  else Inl ''malformed'')]\<rparr>"

definition example_store :: "OlmSession list \<Rightarrow> OlmSession list state" where
  "example_store sessions = \<lparr>world = sessions, calls = []\<rparr>"

definition example_evt :: "string \<Rightarrow> string \<Rightarrow> OlmMsgType \<Rightarrow> string \<Rightarrow> Event" where
  "example_evt algorithm recipientKey olmType body =
     \<lparr>evt_Sender = ''@alice'',
      evt_Content =
        \<lparr>VeryRaw = ''{}'',
         Parsed = Some (EncryptedContent
           \<lparr>Algorithm = algorithm, enc_SenderKey = ''SENDER1'',
            OlmCiphertext = [recipientKey \<mapsto> \<lparr>ct_Type = olmType, ct_Body = body\<rparr>]\<rparr>)\<rparr>\<rparr>"

definition example_plain_evt :: Event where
  "example_plain_evt =
     \<lparr>evt_Sender = ''@alice'',
      evt_Content = \<lparr>VeryRaw = ''{}'', Parsed = Some (OtherContent ''MessageEventContent'')\<rparr>\<rparr>"

section \<open>Properties\<close>

subsection \<open>The calls of the trial pass\<close>

lemmas call_defs = call_GetSessions_def call_MatchesInboundSession_def call_Decrypt_def
  call_NewInboundSessionFrom_def call_SaveAccount_def call_AddSession_def
  call_markDeviceForUnwedging_def log_Warn_def log_Error_def

lemma loop_PreKey:
  "tryDecryptOlmEvent_loop mach OlmMsgTypePreKey c ss st = (r, st') \<Longrightarrow>
   (r = Inr None \<and> calls st' = calls st @ skipped c ss) \<or>
   (\<exists>pre s post. ss = pre @ s # post \<and>
      ((\<exists>e. r = Inl (Wrap e ''failed to check if ciphertext matches inbound session'') \<and>
            calls st' = calls st @ skipped c pre @ [MatchesInboundSessionCall s c (Inl e)]) \<or>
       (\<exists>e. r = Inl DecryptionFailedWithMatchingSession \<and>
            calls st' = calls st @ skipped c pre @
              [MatchesInboundSessionCall s c (Inr True), DecryptCall s c OlmMsgTypePreKey (Inl e)]) \<or>
       (\<exists>p. r = Inr p \<and>
            calls st' = calls st @ skipped c pre @
              [MatchesInboundSessionCall s c (Inr True), DecryptCall s c OlmMsgTypePreKey (Inr p)])))"
proof (induction ss arbitrary: st)
  case Nil
  then show ?case by (simp add: skipped_def)
next
  case (Cons a ss)
  obtain m st1 where m: "call_MatchesInboundSession mach a c st = (m, st1)"
    by (cases "call_MatchesInboundSession mach a c st")
  then have c1: "calls st1 = calls st @ [MatchesInboundSessionCall a c m]"
    by (auto simp: call_MatchesInboundSession_def split: prod.splits)
  show ?case
  proof (cases m)
    case (Inl e)
    with Cons.prems m c1 have "r = Inl (Wrap e ''failed to check if ciphertext matches inbound session'')
       \<and> calls st' = calls st @ skipped c [] @ [MatchesInboundSessionCall a c (Inl e)]"
      by (auto simp: skipped_def)
    moreover have "a # ss = [] @ a # ss" by simp
    ultimately show ?thesis by blast
  next
    case (Inr b)
    show ?thesis
    proof (cases b)
      case False
      with Inr Cons.prems m have "tryDecryptOlmEvent_loop mach OlmMsgTypePreKey c ss st1 = (r, st')"
        by simp
      from Cons.IH[OF this] show ?thesis
      proof (elim disjE exE conjE)
        assume "r = Inr None" "calls st' = calls st1 @ skipped c ss"
        then show ?thesis using c1 Inr False by (simp add: skipped_def)
      next
        fix pre s post e
        assume "ss = pre @ s # post" "r = Inl (Wrap e ''failed to check if ciphertext matches inbound session'')"
          "calls st' = calls st1 @ skipped c pre @ [MatchesInboundSessionCall s c (Inl e)]"
        then have "a # ss = (a # pre) @ s # post \<and> r = Inl (Wrap e ''failed to check if ciphertext matches inbound session'') \<and>
            calls st' = calls st @ skipped c (a # pre) @ [MatchesInboundSessionCall s c (Inl e)]"
          using c1 Inr False by (simp add: skipped_def)
        then show ?thesis by blast
      next
        fix pre s post e
        assume "ss = pre @ s # post" "r = Inl DecryptionFailedWithMatchingSession"
          "calls st' = calls st1 @ skipped c pre @
              [MatchesInboundSessionCall s c (Inr True), DecryptCall s c OlmMsgTypePreKey (Inl e)]"
        then have "a # ss = (a # pre) @ s # post \<and> r = Inl DecryptionFailedWithMatchingSession \<and>
            calls st' = calls st @ skipped c (a # pre) @
              [MatchesInboundSessionCall s c (Inr True), DecryptCall s c OlmMsgTypePreKey (Inl e)]"
          using c1 Inr False by (simp add: skipped_def)
        then show ?thesis by blast
      next
        fix pre s post p
        assume "ss = pre @ s # post" "r = Inr p"
          "calls st' = calls st1 @ skipped c pre @
              [MatchesInboundSessionCall s c (Inr True), DecryptCall s c OlmMsgTypePreKey (Inr p)]"
        then have "a # ss = (a # pre) @ s # post \<and> r = Inr p \<and>
            calls st' = calls st @ skipped c (a # pre) @
              [MatchesInboundSessionCall s c (Inr True), DecryptCall s c OlmMsgTypePreKey (Inr p)]"
          using c1 Inr False by (simp add: skipped_def)
        then show ?thesis by blast
      qed
    next
      case True
      obtain d st2 where d: "call_Decrypt mach a c OlmMsgTypePreKey st1 = (d, st2)"
        by (cases "call_Decrypt mach a c OlmMsgTypePreKey st1")
      then have c2: "calls st2 = calls st1 @ [DecryptCall a c OlmMsgTypePreKey d]"
        by (auto simp: call_Decrypt_def split: prod.splits)
      have split: "a # ss = [] @ a # ss" by simp
      show ?thesis
      proof (cases d)
        case (Inl e)
        with Cons.prems m d c1 c2 Inr True
        have "r = Inl DecryptionFailedWithMatchingSession \<and>
            calls st' = calls st @ skipped c [] @
              [MatchesInboundSessionCall a c (Inr True), DecryptCall a c OlmMsgTypePreKey (Inl e)]"
          by (auto simp: skipped_def)
        with split show ?thesis by blast
      next
        case (Inr p)
        with Cons.prems m d c1 c2 \<open>m = Inr b\<close> True
        have "r = Inr p \<and>
            calls st' = calls st @ skipped c [] @
              [MatchesInboundSessionCall a c (Inr True), DecryptCall a c OlmMsgTypePreKey (Inr p)]"
          by (auto simp: skipped_def)
        with split show ?thesis by blast
      qed
    qed
  qed
qed

lemma failed_decrypt_iff:
  "failed_decrypt c t x cl \<longleftrightarrow> (\<exists>e. cl = DecryptCall x c t (Inl e))"
  by (cases "(c, t, x, cl)" rule: failed_decrypt.cases) auto

lemma loop_Normal:
  "t \<noteq> OlmMsgTypePreKey \<Longrightarrow> tryDecryptOlmEvent_loop mach t c ss st = (r, st') \<Longrightarrow>
   (\<exists>fl. r = Inr None \<and> calls st' = calls st @ fl \<and> list_all2 (failed_decrypt c t) ss fl) \<or>
   (\<exists>pre s post fl p. ss = pre @ s # post \<and> r = Inr p \<and>
      calls st' = calls st @ fl @ [DecryptCall s c t (Inr p)] \<and>
      list_all2 (failed_decrypt c t) pre fl)"
proof (induction ss arbitrary: st)
  case Nil
  then show ?case by simp
next
  case (Cons a ss)
  obtain d st2 where d: "call_Decrypt mach a c t st = (d, st2)"
    by (cases "call_Decrypt mach a c t st")
  then have c2: "calls st2 = calls st @ [DecryptCall a c t d]"
    by (auto simp: call_Decrypt_def split: prod.splits)
  show ?case
  proof (cases d)
    case (Inr p)
    with Cons.prems d c2
    have "a # ss = [] @ a # ss \<and> r = Inr p \<and>
        calls st' = calls st @ [] @ [DecryptCall a c t (Inr p)] \<and>
        list_all2 (failed_decrypt c t) [] []"
      by auto
    then show ?thesis by blast
  next
    case (Inl e)
    with Cons.prems d have "tryDecryptOlmEvent_loop mach t c ss st2 = (r, st')"
      by simp
    from Cons.IH[OF Cons.prems(1) this] show ?thesis
    proof (elim disjE exE conjE)
      fix fl
      assume "r = Inr None" "calls st' = calls st2 @ fl" "list_all2 (failed_decrypt c t) ss fl"
      then have "r = Inr None \<and> calls st' = calls st @ (DecryptCall a c t (Inl e) # fl) \<and>
          list_all2 (failed_decrypt c t) (a # ss) (DecryptCall a c t (Inl e) # fl)"
        using c2 Inl by simp
      then show ?thesis by blast
    next
      fix pre s post fl p
      assume "ss = pre @ s # post" "r = Inr p"
        "calls st' = calls st2 @ fl @ [DecryptCall s c t (Inr p)]"
        "list_all2 (failed_decrypt c t) pre fl"
      then have "a # ss = (a # pre) @ s # post \<and> r = Inr p \<and>
          calls st' = calls st @ (DecryptCall a c t (Inl e) # fl) @ [DecryptCall s c t (Inr p)] \<and>
          list_all2 (failed_decrypt c t) (a # pre) (DecryptCall a c t (Inl e) # fl)"
        using c2 Inl by simp
      then show ?thesis by blast
    qed
  qed
qed

lemma call_GetSessions_calls:
  "call_GetSessions mach k st = (g, st1) \<Longrightarrow>
   fst (GetSessions mach k (world st)) = g \<and> calls st1 = calls st @ [GetSessionsCall k g]"
  by (auto simp: call_GetSessions_def split: prod.splits)

lemma try_PreKey:
  assumes "tryDecryptOlmEvent mach k OlmMsgTypePreKey c st = (r, st')"
  shows
   "(\<exists>e. fst (GetSessions mach k (world st)) = Inl e \<and>
         r = Inl (Wrap e (''failed to get session for '' @ k)) \<and>
         calls st' = calls st @ [GetSessionsCall k (Inl e)]) \<or>
    (\<exists>ss. fst (GetSessions mach k (world st)) = Inr ss \<and>
      ((r = Inr None \<and> calls st' = calls st @ GetSessionsCall k (Inr ss) # skipped c ss) \<or>
       (\<exists>pre s post. ss = pre @ s # post \<and>
         ((\<exists>e. r = Inl (Wrap e ''failed to check if ciphertext matches inbound session'') \<and>
               calls st' = calls st @ GetSessionsCall k (Inr ss) # skipped c pre @
                 [MatchesInboundSessionCall s c (Inl e)]) \<or>
          (\<exists>e. r = Inl DecryptionFailedWithMatchingSession \<and>
               calls st' = calls st @ GetSessionsCall k (Inr ss) # skipped c pre @
                 [MatchesInboundSessionCall s c (Inr True),
                  DecryptCall s c OlmMsgTypePreKey (Inl e)]) \<or>
          (\<exists>p. r = Inr p \<and>
               calls st' = calls st @ GetSessionsCall k (Inr ss) # skipped c pre @
                 [MatchesInboundSessionCall s c (Inr True),
                  DecryptCall s c OlmMsgTypePreKey (Inr p)])))))"
proof -
  obtain g st1 where g: "call_GetSessions mach k st = (g, st1)"
    by (cases "call_GetSessions mach k st")
  note g1 = call_GetSessions_calls[OF g]
  show ?thesis
  proof (cases g)
    case (Inl e)
    with assms g g1 show ?thesis by (auto simp: tryDecryptOlmEvent_def)
  next
    case (Inr ss)
    with assms g have "tryDecryptOlmEvent_loop mach OlmMsgTypePreKey c ss st1 = (r, st')"
      by (simp add: tryDecryptOlmEvent_def)
    from loop_PreKey[OF this] g1 Inr show ?thesis
      by (intro disjI2, intro exI[of _ ss]) auto
  qed
qed

lemma try_Normal:
  assumes "t \<noteq> OlmMsgTypePreKey" and "tryDecryptOlmEvent mach k t c st = (r, st')"
  shows
   "(\<exists>e. fst (GetSessions mach k (world st)) = Inl e \<and>
         r = Inl (Wrap e (''failed to get session for '' @ k)) \<and>
         calls st' = calls st @ [GetSessionsCall k (Inl e)]) \<or>
    (\<exists>ss. fst (GetSessions mach k (world st)) = Inr ss \<and>
      ((\<exists>fl. r = Inr None \<and> calls st' = calls st @ GetSessionsCall k (Inr ss) # fl \<and>
             list_all2 (failed_decrypt c t) ss fl) \<or>
       (\<exists>pre s post fl p. ss = pre @ s # post \<and> r = Inr p \<and>
             calls st' = calls st @ GetSessionsCall k (Inr ss) # fl @ [DecryptCall s c t (Inr p)] \<and>
             list_all2 (failed_decrypt c t) pre fl)))"
proof -
  obtain g st1 where g: "call_GetSessions mach k st = (g, st1)"
    by (cases "call_GetSessions mach k st")
  note g1 = call_GetSessions_calls[OF g]
  show ?thesis
  proof (cases g)
    case (Inl e)
    with assms g g1 show ?thesis by (auto simp: tryDecryptOlmEvent_def)
  next
    case (Inr ss)
    with assms g have "tryDecryptOlmEvent_loop mach t c ss st1 = (r, st')"
      by (simp add: tryDecryptOlmEvent_def)
    from loop_Normal[OF assms(1) this] g1 Inr show ?thesis
      by (intro disjI2, intro exI[of _ ss]) auto
  qed
qed

lemma failed_decrypt_set:
  "list_all2 (failed_decrypt c t) xs fl \<Longrightarrow> cl \<in> set fl \<Longrightarrow>
   \<exists>s e. cl = DecryptCall s c t (Inl e)"
  by (induction rule: list_all2_induct) (auto simp: failed_decrypt_iff)

lemma failed_decrypt_no_unwedging:
  "list_all2 (failed_decrypt c t) xs fl \<Longrightarrow> \<not> list_ex is_unwedging fl"
  by (auto simp: list_ex_iff dest: failed_decrypt_set)

lemma skipped_mem:
  "x \<in> set (skipped c pre) \<longleftrightarrow> (\<exists>y\<in>set pre. x = MatchesInboundSessionCall y c (Inr False))"
  by (auto simp: skipped_def)

lemma skipped_no_unwedging: "\<not> list_ex is_unwedging (skipped c pre)"
  by (auto simp: list_ex_iff skipped_def)

lemma try_no_unwedging:
  assumes "tryDecryptOlmEvent mach k t c st = (r, st')"
  shows "\<exists>new. calls st' = calls st @ new \<and> \<not> list_ex is_unwedging new"
proof (cases "t = OlmMsgTypePreKey")
  case True
  from try_PreKey[OF assms[unfolded True]] show ?thesis
    by (elim disjE exE conjE) (simp_all add: skipped_no_unwedging)
next
  case False
  from try_Normal[OF False assms] show ?thesis
    by (elim disjE exE conjE) (simp_all add: failed_decrypt_no_unwedging)
qed

lemma loop_all_skipped:
  "all_skipped mach c pre (world st) = Some w1 \<Longrightarrow>
   tryDecryptOlmEvent_loop mach OlmMsgTypePreKey c (pre @ rest) st =
   tryDecryptOlmEvent_loop mach OlmMsgTypePreKey c rest
     \<lparr>world = w1, calls = calls st @ skipped c pre\<rparr>"
proof (induction pre arbitrary: st)
  case Nil
  then show ?case by (cases st) (simp add: skipped_def)
next
  case (Cons a pre)
  obtain r w' where m: "MatchesInboundSession mach a c (world st) = (r, w')"
    by (cases "MatchesInboundSession mach a c (world st)")
  with Cons.prems have r: "r = Inr False" and s: "all_skipped mach c pre w' = Some w1"
    by (auto split: if_splits)
  let ?st1 = "\<lparr>world = w', calls = calls st @ [MatchesInboundSessionCall a c (Inr False)]\<rparr>"
  have "tryDecryptOlmEvent_loop mach OlmMsgTypePreKey c ((a # pre) @ rest) st =
        tryDecryptOlmEvent_loop mach OlmMsgTypePreKey c (pre @ rest) ?st1"
    using m r by (simp add: call_MatchesInboundSession_def)
  also have "\<dots> = tryDecryptOlmEvent_loop mach OlmMsgTypePreKey c rest
     \<lparr>world = w1, calls = calls ?st1 @ skipped c pre\<rparr>"
    using Cons.IH[of ?st1] s by simp
  finally show ?case by (simp add: skipped_def)
qed

subsection \<open>The calls of the bootstrap and of the plaintext phase\<close>

lemma createInboundSession_success:
  assumes "NewInboundSessionFrom mach k c (world st) = (Inr s, w1)"
    and "AddSession mach k s (SaveAccount mach w1) = (a, w2)"
  shows "createInboundSession mach k c st =
    (Inr s, \<lparr>world = w2, calls = calls st @ createInboundSession_calls k c s a\<rparr>)"
  using assms
  by (cases a) (simp_all add: createInboundSession_def createInboundSession_calls_def call_defs)

lemma createInboundSession_no_unwedging:
  assumes "createInboundSession mach k c st = (r, st')"
  shows "\<exists>new. calls st' = calls st @ new \<and> \<not> list_ex is_unwedging new"
  using assms
  by (auto simp: createInboundSession_def call_defs split: prod.splits sum.splits option.splits)

lemma plaintext_Inr_no_unwedging:
  assumes "decryptOlmEvent_plaintext mach evt k t c st = (Inr p, st')"
  shows "\<exists>new. calls st' = calls st @ new \<and> \<not> list_ex is_unwedging new"
proof -
  obtain r1 st1 where t: "tryDecryptOlmEvent mach k t c st = (r1, st1)"
    by (cases "tryDecryptOlmEvent mach k t c st")
  from try_no_unwedging[OF t] obtain n1 where
    n1: "calls st1 = calls st @ n1" "\<not> list_ex is_unwedging n1" by blast
  show ?thesis
  proof (cases "r1 = Inr None \<and> t = OlmMsgTypePreKey")
    case False
    with assms t n1 show ?thesis
      by (auto simp: decryptOlmEvent_plaintext_def split: if_splits sum.splits)
  next
    case True
    obtain r2 st2 where b: "createInboundSession mach k c st1 = (r2, st2)"
      by (cases "createInboundSession mach k c st1")
    from createInboundSession_no_unwedging[OF b] obtain n2 where
      n2: "calls st2 = calls st1 @ n2" "\<not> list_ex is_unwedging n2" by blast
    from assms t True b n1 n2 show ?thesis
      by (auto simp: decryptOlmEvent_plaintext_def call_Decrypt_def
               split: if_splits sum.splits prod.splits)
  qed
qed

lemma plaintext_Inl_cases:
  assumes "decryptOlmEvent_plaintext mach evt k t c st = (Inl err, st')"
  shows "err = UnsupportedOlmMessageType \<or> err = DecryptionFailedForNormalMessage \<or>
         (\<exists>e m. err = Wrap e m)"
  using assms
  by (auto simp: decryptOlmEvent_plaintext_def split: if_splits sum.splits prod.splits)

lemma payload_Inr:
  assumes "decryptOlmEvent_payload mach evt k p st = Inr oe"
  shows "Sender oe = evt_Sender evt \<and> Recipient oe = client_UserID mach \<and>
         Ed25519 (RecipientKeys oe) = fst (IdentityKeys mach (world st))"
proof (cases "json_Unmarshal mach p")
  case (Inl e)
  with assms show ?thesis by (simp add: decryptOlmEvent_payload_def)
next
  case (Inr payload)
  obtain perr content where
    pr: "ParseRaw (TypeMap mach) (Type payload) (Content payload) = (perr, content)"
    by (cases "ParseRaw (TypeMap mach) (Type payload) (Content payload)")
  have ok: "evt_Sender evt = Sender payload \<and> client_UserID mach = Recipient payload \<and>
        fst (IdentityKeys mach (world st)) = Ed25519 (RecipientKeys payload)"
    using assms Inr by (simp add: decryptOlmEvent_payload_def split: if_splits)
  then have "oe = payload\<lparr>Content := content, Source := Some evt, SenderKey := k\<rparr>"
    using assms Inr pr
    by (cases perr) (simp_all add: decryptOlmEvent_payload_def split: if_splits)
  with ok show ?thesis by simp
qed

lemma payload_mismatch:
  assumes "json_Unmarshal mach p = Inr payload"
  shows "(evt_Sender evt \<noteq> Sender payload \<longrightarrow>
            decryptOlmEvent_payload mach evt k p st = Inl SenderMismatch) \<and>
         (evt_Sender evt = Sender payload \<and> client_UserID mach \<noteq> Recipient payload \<longrightarrow>
            decryptOlmEvent_payload mach evt k p st = Inl RecipientMismatch) \<and>
         (evt_Sender evt = Sender payload \<and> client_UserID mach = Recipient payload \<and>
          fst (IdentityKeys mach (world st)) \<noteq> Ed25519 (RecipientKeys payload) \<longrightarrow>
            decryptOlmEvent_payload mach evt k p st = Inl RecipientKeyMismatch)"
  using assms by (simp add: decryptOlmEvent_payload_def)

subsection \<open>Runs of the example machine\<close>

lemmas example_defs = example_mach_def example_store_def example_payload_def
  tryDecryptOlmEvent_def call_defs

lemma example_trial_match_error:
  "tryDecryptOlmEvent example_mach ''SENDER1'' OlmMsgTypePreKey ''msg'' (example_store [1, 3, 2]) =
     (Inl (Wrap (External ''bad pickle'') ''failed to check if ciphertext matches inbound session''),
      \<lparr>world = [1, 3, 2],
       calls = [GetSessionsCall ''SENDER1'' (Inr [1, 3, 2]),
                MatchesInboundSessionCall 1 ''msg'' (Inr False),
                MatchesInboundSessionCall 3 ''msg'' (Inl (External ''bad pickle''))]\<rparr>)"
  by (simp add: example_defs)

lemma example_trial_normal_exhausted:
  "tryDecryptOlmEvent example_mach ''SENDER1'' OlmMsgTypeMsg ''msg'' (example_store [1, 2]) =
     (Inr None,
      \<lparr>world = [1, 2],
       calls = [GetSessionsCall ''SENDER1'' (Inr [1, 2]),
                DecryptCall 1 ''msg'' OlmMsgTypeMsg (Inl (External ''bad mac'')),
                DecryptCall 2 ''msg'' OlmMsgTypeMsg (Inl (External ''bad mac''))]\<rparr>)"
  by (simp add: example_defs)

lemma example_trial_inconclusive:
  "tryDecryptOlmEvent example_mach ''SENDER1'' OlmMsgTypePreKey ''corrupt'' (example_store [1]) =
     (Inr None,
      \<lparr>world = [1],
       calls = [GetSessionsCall ''SENDER1'' (Inr [1]),
                MatchesInboundSessionCall 1 ''corrupt'' (Inr False)]\<rparr>)"
  by (simp add: example_defs)

lemma example_bootstrap:
  "createInboundSession example_mach ''SENDER1'' ''corrupt''
     \<lparr>world = [1],
      calls = [GetSessionsCall ''SENDER1'' (Inr [1]),
               MatchesInboundSessionCall 1 ''corrupt'' (Inr False)]\<rparr> =
     (Inr 9,
      \<lparr>world = [1, 9],
       calls = [GetSessionsCall ''SENDER1'' (Inr [1]),
                MatchesInboundSessionCall 1 ''corrupt'' (Inr False),
                NewInboundSessionFromCall ''SENDER1'' ''corrupt'' (Inr 9),
                SaveAccountCall,
                AddSessionCall ''SENDER1'' 9 None]\<rparr>)"
  by (simp add: example_defs createInboundSession_def)

lemma example_new_session_decrypt:
  "Decrypt example_mach 9 ''corrupt'' OlmMsgTypePreKey
     (world \<lparr>world = [1, 9],
       calls = [GetSessionsCall ''SENDER1'' (Inr [1]),
                MatchesInboundSessionCall 1 ''corrupt'' (Inr False),
                NewInboundSessionFromCall ''SENDER1'' ''corrupt'' (Inr 9),
                SaveAccountCall,
                AddSessionCall ''SENDER1'' 9 None]\<rparr>) =
     (Inl (External ''bad mac''), [1, 9])"
  by (simp add: example_defs)

lemma example_run_corrupt:
  "decryptOlmEvent example_mach example_plain_evt ''SENDER1'' OlmMsgTypePreKey ''corrupt''
       (example_store [1]) =
     (Inl (Wrap (External ''bad mac'')
             ''failed to decrypt olm event with session created from prekey message''),
      \<lparr>world = [1, 9],
       calls = [GetSessionsCall ''SENDER1'' (Inr [1]),
                MatchesInboundSessionCall 1 ''corrupt'' (Inr False),
                NewInboundSessionFromCall ''SENDER1'' ''corrupt'' (Inr 9),
                SaveAccountCall,
                AddSessionCall ''SENDER1'' 9 None,
                DecryptCall 9 ''corrupt'' OlmMsgTypePreKey (Inl (External ''bad mac''))]\<rparr>)"
  by (simp add: example_defs createInboundSession_def decryptOlmEvent_def
        decryptOlmEvent_plaintext_def)

lemma example_trial_full_store:
  "tryDecryptOlmEvent example_mach ''SENDER1'' OlmMsgTypePreKey ''msg'' (example_store [5, 6]) =
     (Inr None,
      \<lparr>world = [5, 6],
       calls = [GetSessionsCall ''SENDER1'' (Inr [5, 6]),
                MatchesInboundSessionCall 5 ''msg'' (Inr False),
                MatchesInboundSessionCall 6 ''msg'' (Inr False)]\<rparr>)"
  by (simp add: example_defs)

lemma example_run_forged:
  "decryptOlmEvent example_mach example_plain_evt ''SENDER1'' OlmMsgTypeMsg ''forged''
       (example_store [2, 4]) =
     (Inl RecipientMismatch,
      \<lparr>world = [2, 4],
       calls = [GetSessionsCall ''SENDER1'' (Inr [2, 4]),
                DecryptCall 2 ''forged'' OlmMsgTypeMsg (Inl (External ''bad mac'')),
                DecryptCall 4 ''forged'' OlmMsgTypeMsg (Inr (Some ''forged''))]\<rparr>)"
  by (simp add: example_defs example_plain_evt_def decryptOlmEvent_def
        decryptOlmEvent_plaintext_def decryptOlmEvent_payload_def)

lemma example_plaintext_custom:
  "decryptOlmEvent_plaintext example_mach example_plain_evt ''SENDER1'' OlmMsgTypeMsg ''custom''
       (example_store [4]) =
     (Inr (Some ''custom''),
      \<lparr>world = [4],
       calls = [GetSessionsCall ''SENDER1'' (Inr [4]),
                DecryptCall 4 ''custom'' OlmMsgTypeMsg (Inr (Some ''custom''))]\<rparr>)"
  by (simp add: example_defs decryptOlmEvent_plaintext_def)

subsection \<open>The claims\<close>

text \<open>
  Claim C1. \<open>decryptOlmEvent\<close> returns an envelope only when the payload's sender is the
  sender of the transport event, its recipient is the client's user id and its recipient
  ed25519 key is the account's fingerprint key. When the plaintext parses as a payload, the
  first of the three checks that fails gives \<open>SenderMismatch\<close>, \<open>RecipientMismatch\<close> or
  \<open>RecipientKeyMismatch\<close>, and the state returned is the one the plaintext was obtained
  in: nothing is called after the check. A run that ends in one of the three errors has made
  no call of \<open>markDeviceForUnwedging\<close>.
\<close>

theorem decryptOlmEvent_authenticates:
  assumes "decryptOlmEvent mach evt k t c st = (r, st')"
  shows "(\<forall>oe. r = Inr oe \<longrightarrow>
            Sender oe = evt_Sender evt \<and> Recipient oe = client_UserID mach \<and>
            Ed25519 (RecipientKeys oe) = fst (IdentityKeys mach (world st'))) \<and>
         (\<forall>p st1 payload.
            decryptOlmEvent_plaintext mach evt k t c st = (Inr p, st1) \<and>
            json_Unmarshal mach p = Inr payload \<longrightarrow>
            st' = st1 \<and>
            (evt_Sender evt \<noteq> Sender payload \<longrightarrow> r = Inl SenderMismatch) \<and>
            (evt_Sender evt = Sender payload \<and> client_UserID mach \<noteq> Recipient payload \<longrightarrow>
               r = Inl RecipientMismatch) \<and>
            (evt_Sender evt = Sender payload \<and> client_UserID mach = Recipient payload \<and>
             fst (IdentityKeys mach (world st1)) \<noteq> Ed25519 (RecipientKeys payload) \<longrightarrow>
               r = Inl RecipientKeyMismatch)) \<and>
         (r \<in> {Inl SenderMismatch, Inl RecipientMismatch, Inl RecipientKeyMismatch} \<longrightarrow>
            (\<forall>new. calls st' = calls st @ new \<longrightarrow> \<not> list_ex is_unwedging new))"
proof (intro conjI allI impI)
  fix oe assume oe: "r = Inr oe"
  obtain q st1 where q: "decryptOlmEvent_plaintext mach evt k t c st = (q, st1)"
    by (cases "decryptOlmEvent_plaintext mach evt k t c st")
  from assms oe q obtain p where "q = Inr p" "st' = st1"
    "decryptOlmEvent_payload mach evt k p st1 = Inr oe"
    by (cases q) (auto simp: decryptOlmEvent_def)
  with payload_Inr[of mach evt k p st1 oe]
  show "Sender oe = evt_Sender evt" "Recipient oe = client_UserID mach"
    "Ed25519 (RecipientKeys oe) = fst (IdentityKeys mach (world st'))"
    by simp_all
next
  fix p st1 payload
  assume h: "decryptOlmEvent_plaintext mach evt k t c st = (Inr p, st1) \<and>
             json_Unmarshal mach p = Inr payload"
  with assms have e: "st' = st1" "r = decryptOlmEvent_payload mach evt k p st1"
    by (auto simp: decryptOlmEvent_def)
  note m = payload_mismatch[of mach p payload evt k st1]
  show "st' = st1" by (rule e(1))
  show "r = Inl SenderMismatch" if "evt_Sender evt \<noteq> Sender payload"
    using that m h e(2) by simp
  show "r = Inl RecipientMismatch"
    if "evt_Sender evt = Sender payload \<and> client_UserID mach \<noteq> Recipient payload"
    using that m h e(2) by simp
  show "r = Inl RecipientKeyMismatch"
    if "evt_Sender evt = Sender payload \<and> client_UserID mach = Recipient payload \<and>
        fst (IdentityKeys mach (world st1)) \<noteq> Ed25519 (RecipientKeys payload)"
    using that m h e(2) by simp
next
  fix new
  assume rm: "r \<in> {Inl SenderMismatch, Inl RecipientMismatch, Inl RecipientKeyMismatch}"
    and new: "calls st' = calls st @ new"
  obtain q st1 where q: "decryptOlmEvent_plaintext mach evt k t c st = (q, st1)"
    by (cases "decryptOlmEvent_plaintext mach evt k t c st")
  show "\<not> list_ex is_unwedging new"
  proof (cases q)
    case (Inl err)
    with q assms have "r = Inl err" by (auto simp: decryptOlmEvent_def)
    moreover from plaintext_Inl_cases[OF q[unfolded Inl]]
    have "err \<noteq> SenderMismatch \<and> err \<noteq> RecipientMismatch \<and> err \<noteq> RecipientKeyMismatch"
      by auto
    ultimately show ?thesis using rm by simp
  next
    case (Inr p)
    with q assms have "st' = st1" by (auto simp: decryptOlmEvent_def)
    with plaintext_Inr_no_unwedging[OF q[unfolded Inr]] new show ?thesis by auto
  qed
qed

theorem decryptOlmEvent_authenticates_witness:
  "fst (decryptOlmEvent example_mach example_plain_evt ''SENDER1'' OlmMsgTypeMsg ''forged''
          (example_store [2, 4])) = Inl RecipientMismatch \<and>
   \<not> list_ex is_unwedging
       [GetSessionsCall ''SENDER1'' (Inr [2, 4]),
        DecryptCall 2 ''forged'' OlmMsgTypeMsg (Inl (External ''bad mac'')),
        DecryptCall 4 ''forged'' OlmMsgTypeMsg (Inr (Some ''forged''))]"
  using decryptOlmEvent_authenticates[OF example_run_forged]
  unfolding example_run_forged by (simp add: example_store_def)

text \<open>
  Claim C2, as stated, fails: on the example machine with the stored sessions 4 and 2,
  session 2 passes the structural check of the pre-key message \<open>msg\<close> and its \<open>Decrypt\<close>
  fails, but session 4, which comes first, matches and decrypts, so \<open>decryptOlmEvent\<close>
  returns the envelope, session 2 is never looked at and nothing is unwedged.
\<close>

theorem matching_session_fails_counterexample:
  "fst (GetSessions example_mach ''SENDER1'' [4, 2]) = Inr [4, 2] \<and>
   fst (MatchesInboundSession example_mach 2 ''msg'' [4, 2]) = Inr True \<and>
   fst (Decrypt example_mach 2 ''msg'' OlmMsgTypePreKey [4, 2]) = Inl (External ''bad mac'') \<and>
   decryptOlmEvent example_mach example_plain_evt ''SENDER1'' OlmMsgTypePreKey ''msg''
       (example_store [4, 2]) =
     (Inr ((example_payload ''@bob'' ''m.room.message'' ''{}'')
             \<lparr>Content := \<lparr>VeryRaw = ''{}'',
                           Parsed = Some (OtherContent ''MessageEventContent'')\<rparr>,
              Source := Some example_plain_evt, SenderKey := ''SENDER1''\<rparr>),
      \<lparr>world = [4, 2],
       calls = [GetSessionsCall ''SENDER1'' (Inr [4, 2]),
                MatchesInboundSessionCall 4 ''msg'' (Inr True),
                DecryptCall 4 ''msg'' OlmMsgTypePreKey (Inr (Some ''msg''))]\<rparr>)"
  by (simp add: example_defs example_plain_evt_def decryptOlmEvent_def
        decryptOlmEvent_plaintext_def decryptOlmEvent_payload_def ParseRaw_def)

text \<open>
  Claim C2, amended. For a pre-key message, when the store returns the sessions
  \<open>pre @ s # post\<close>, every session of \<open>pre\<close> answers the structural check with false,
  \<open>s\<close> then passes the check and the \<open>Decrypt\<close> of \<open>s\<close> that follows fails, each call
  taken in the world the call before it left, \<open>decryptOlmEvent\<close> returns
  \<open>DecryptionFailedWithMatchingSession\<close> wrapped. The world it returns is the one
  \<open>markDeviceForUnwedging\<close> for the sender makes of the world the failed decrypt left, and
  its calls are: the read of the store, the checks of \<open>pre\<close>, the check and the failed
  decrypt of \<open>s\<close>, the warning and \<open>markDeviceForUnwedging\<close>. No session of \<open>post\<close> is
  checked or decrypted with.
\<close>

theorem decryptOlmEvent_matching_session_fails:
  assumes "GetSessions mach k (world st) = (Inr (pre @ s # post), w0)"
    and "all_skipped mach c pre w0 = Some w1"
    and "MatchesInboundSession mach s c w1 = (Inr True, w2)"
    and "Decrypt mach s c OlmMsgTypePreKey w2 = (Inl err, w3)"
  shows "decryptOlmEvent mach evt k OlmMsgTypePreKey c st =
      (Inl (Wrap DecryptionFailedWithMatchingSession ''failed to decrypt olm event''),
       \<lparr>world = markDeviceForUnwedging mach (evt_Sender evt) k w3,
        calls = calls st @ GetSessionsCall k (Inr (pre @ s # post)) # skipped c pre @
          [MatchesInboundSessionCall s c (Inr True),
           DecryptCall s c OlmMsgTypePreKey (Inl err),
           LogWarnCall (evt_Sender evt) k,
           markDeviceForUnwedgingCall (evt_Sender evt) k]\<rparr>)"
proof -
  let ?st0 = "\<lparr>world = w0, calls = calls st @ [GetSessionsCall k (Inr (pre @ s # post))]\<rparr>"
  let ?st1 = "\<lparr>world = w1, calls = calls ?st0 @ skipped c pre\<rparr>"
  have g: "call_GetSessions mach k st = (Inr (pre @ s # post), ?st0)"
    using assms(1) by (simp add: call_GetSessions_def)
  have l: "tryDecryptOlmEvent_loop mach OlmMsgTypePreKey c (pre @ s # post) ?st0 =
           tryDecryptOlmEvent_loop mach OlmMsgTypePreKey c (s # post) ?st1"
    using loop_all_skipped[of mach c pre ?st0 w1 "s # post"] assms(2) by simp
  have "tryDecryptOlmEvent_loop mach OlmMsgTypePreKey c (s # post) ?st1 =
          (Inl DecryptionFailedWithMatchingSession,
           \<lparr>world = w3, calls = calls ?st1 @
              [MatchesInboundSessionCall s c (Inr True),
               DecryptCall s c OlmMsgTypePreKey (Inl err)]\<rparr>)"
    using assms(3,4) by (simp add: call_MatchesInboundSession_def call_Decrypt_def)
  with g l have "tryDecryptOlmEvent mach k OlmMsgTypePreKey c st =
          (Inl DecryptionFailedWithMatchingSession,
           \<lparr>world = w3, calls = calls ?st1 @
              [MatchesInboundSessionCall s c (Inr True),
               DecryptCall s c OlmMsgTypePreKey (Inl err)]\<rparr>)"
    by (simp add: tryDecryptOlmEvent_def)
  then show ?thesis
    by (simp add: decryptOlmEvent_def decryptOlmEvent_plaintext_def
          call_markDeviceForUnwedging_def log_Warn_def)
qed

theorem decryptOlmEvent_matching_session_fails_witness:
  "decryptOlmEvent example_mach example_plain_evt ''SENDER1'' OlmMsgTypePreKey ''msg''
       (example_store [5, 2, 4]) =
     (Inl (Wrap DecryptionFailedWithMatchingSession ''failed to decrypt olm event''),
      \<lparr>world = [5, 2, 4],
       calls = [GetSessionsCall ''SENDER1'' (Inr [5, 2, 4]),
                MatchesInboundSessionCall 5 ''msg'' (Inr False),
                MatchesInboundSessionCall 2 ''msg'' (Inr True),
                DecryptCall 2 ''msg'' OlmMsgTypePreKey (Inl (External ''bad mac'')),
                LogWarnCall ''@alice'' ''SENDER1'',
                markDeviceForUnwedgingCall ''@alice'' ''SENDER1'']\<rparr>)"
  using decryptOlmEvent_matching_session_fails[where mach = example_mach and k = "''SENDER1''"
          and st = "example_store [5, 2, 4]" and pre = "[5]" and s = 2 and post = "[4]"
          and c = "''msg''" and ?w0.0 = "[5, 2, 4]" and ?w1.0 = "[5, 2, 4]"
          and ?w2.0 = "[5, 2, 4]" and ?w3.0 = "[5, 2, 4]" and err = "External ''bad mac''"
          and evt = example_plain_evt]
  by (simp add: example_mach_def example_store_def example_plain_evt_def skipped_def)

text \<open>
  Claim C3. For a normal message, when the store returned its list of sessions (empty or
  not) and no \<open>Decrypt\<close> of the trial pass succeeded, \<open>decryptOlmEvent\<close> returns
  \<open>DecryptionFailedForNormalMessage\<close>; the world it returns is the one
  \<open>markDeviceForUnwedging\<close> for the sender makes of the world the trial pass left, and that
  call is the last of the run. Every stored session was decrypted with, in store order.
  From no state does \<open>decryptOlmEvent\<close> return \<open>DecryptionFailedWithMatchingSession\<close>, bare
  or wrapped, for a normal message.
\<close>

theorem decryptOlmEvent_normal_exhausted:
  assumes "tryDecryptOlmEvent mach k OlmMsgTypeMsg c st = (r1, st1)"
    and "calls st1 = calls st @ trial"
    and "fst (GetSessions mach k (world st)) = Inr sessions"
    and "\<forall>s p. DecryptCall s c OlmMsgTypeMsg (Inr p) \<notin> set trial"
  shows "decryptOlmEvent mach evt k OlmMsgTypeMsg c st =
           (Inl DecryptionFailedForNormalMessage,
            \<lparr>world = markDeviceForUnwedging mach (evt_Sender evt) k (world st1),
             calls = calls st @ trial @ [markDeviceForUnwedgingCall (evt_Sender evt) k]\<rparr>) \<and>
         list_all2 (failed_decrypt c OlmMsgTypeMsg) sessions (tl trial) \<and>
         (\<forall>st0. fst (decryptOlmEvent mach evt k OlmMsgTypeMsg c st0) \<noteq>
                  Inl DecryptionFailedWithMatchingSession \<and>
               fst (decryptOlmEvent mach evt k OlmMsgTypeMsg c st0) \<noteq>
                  Inl (Wrap DecryptionFailedWithMatchingSession ''failed to decrypt olm event''))"
proof -
  have n: "OlmMsgTypeMsg \<noteq> OlmMsgTypePreKey" by simp
  from try_Normal[OF n assms(1)] assms(2,3,4)
  have a: "r1 = Inr None \<and> list_all2 (failed_decrypt c OlmMsgTypeMsg) sessions (tl trial)"
    by (elim disjE exE conjE; fastforce)
  have "decryptOlmEvent mach evt k OlmMsgTypeMsg c st =
          (Inl DecryptionFailedForNormalMessage,
           \<lparr>world = markDeviceForUnwedging mach (evt_Sender evt) k (world st1),
            calls = calls st @ trial @ [markDeviceForUnwedgingCall (evt_Sender evt) k]\<rparr>)"
    using a assms(1,2)
    by (simp add: decryptOlmEvent_def decryptOlmEvent_plaintext_def
          call_markDeviceForUnwedging_def)
  moreover have "fst (decryptOlmEvent mach evt k OlmMsgTypeMsg c st0) \<noteq>
                  Inl DecryptionFailedWithMatchingSession \<and>
               fst (decryptOlmEvent mach evt k OlmMsgTypeMsg c st0) \<noteq>
                  Inl (Wrap DecryptionFailedWithMatchingSession ''failed to decrypt olm event'')"
    for st0
  proof -
    obtain r0 st2 where t: "tryDecryptOlmEvent mach k OlmMsgTypeMsg c st0 = (r0, st2)"
      by (cases "tryDecryptOlmEvent mach k OlmMsgTypeMsg c st0")
    from try_Normal[OF n t] have "(\<exists>e m. r0 = Inl (Wrap e m)) \<or> (\<exists>p. r0 = Inr p)"
      by blast
    then show ?thesis using t
      by (auto simp: decryptOlmEvent_def decryptOlmEvent_plaintext_def decryptOlmEvent_payload_def
               split: sum.splits prod.splits option.splits if_splits)
  qed
  ultimately show ?thesis using a by blast
qed

theorem decryptOlmEvent_normal_exhausted_witness:
  "decryptOlmEvent example_mach example_plain_evt ''SENDER1'' OlmMsgTypeMsg ''msg''
       (example_store [1, 2]) =
     (Inl DecryptionFailedForNormalMessage,
      \<lparr>world = [1, 2],
       calls = [GetSessionsCall ''SENDER1'' (Inr [1, 2]),
                DecryptCall 1 ''msg'' OlmMsgTypeMsg (Inl (External ''bad mac'')),
                DecryptCall 2 ''msg'' OlmMsgTypeMsg (Inl (External ''bad mac'')),
                markDeviceForUnwedgingCall ''@alice'' ''SENDER1'']\<rparr>)"
  using decryptOlmEvent_normal_exhausted[OF example_trial_normal_exhausted,
          of "[GetSessionsCall ''SENDER1'' (Inr [1, 2]),
               DecryptCall 1 ''msg'' OlmMsgTypeMsg (Inl (External ''bad mac'')),
               DecryptCall 2 ''msg'' OlmMsgTypeMsg (Inl (External ''bad mac''))]"
             "[1, 2]" example_plain_evt]
  by (simp add: example_store_def example_mach_def example_plain_evt_def)

text \<open>
  Claim C4, as stated, fails: on the example machine with one stored session that does not
  match, the pre-key message \<open>corrupt\<close> leaves the trial pass inconclusive, the account
  creates session 9, the decrypt with session 9 fails, and the calls of the run hold no
  \<open>markDeviceForUnwedging\<close>.
\<close>

theorem new_session_decrypt_fails_unwedging_counterexample:
  "fst (decryptOlmEvent example_mach example_plain_evt ''SENDER1'' OlmMsgTypePreKey ''corrupt''
          (example_store [1])) =
     Inl (Wrap (External ''bad mac'')
            ''failed to decrypt olm event with session created from prekey message'') \<and>
   calls (snd (decryptOlmEvent example_mach example_plain_evt ''SENDER1'' OlmMsgTypePreKey
                 ''corrupt'' (example_store [1]))) =
     [GetSessionsCall ''SENDER1'' (Inr [1]),
      MatchesInboundSessionCall 1 ''corrupt'' (Inr False),
      NewInboundSessionFromCall ''SENDER1'' ''corrupt'' (Inr 9),
      SaveAccountCall,
      AddSessionCall ''SENDER1'' 9 None,
      DecryptCall 9 ''corrupt'' OlmMsgTypePreKey (Inl (External ''bad mac''))] \<and>
   \<not> list_ex is_unwedging
       (calls (snd (decryptOlmEvent example_mach example_plain_evt ''SENDER1'' OlmMsgTypePreKey
                      ''corrupt'' (example_store [1]))))"
  unfolding example_run_corrupt by simp

text \<open>
  Claim C4, amended. For a pre-key message, when the trial pass is inconclusive,
  \<open>createInboundSession\<close> succeeds and the decrypt with the new session fails,
  \<open>decryptOlmEvent\<close> returns that failure wrapped, which is not
  \<open>DecryptionFailedWithMatchingSession\<close>, bare or wrapped, and the run makes no call of
  \<open>markDeviceForUnwedging\<close>.
\<close>

theorem decryptOlmEvent_new_session_decrypt_fails_no_unwedging:
  assumes "tryDecryptOlmEvent mach k OlmMsgTypePreKey c st = (Inr None, st1)"
    and "createInboundSession mach k c st1 = (Inr s, st2)"
    and "Decrypt mach s c OlmMsgTypePreKey (world st2) = (Inl err, w3)"
    and "decryptOlmEvent mach evt k OlmMsgTypePreKey c st = (r, st')"
    and "calls st' = calls st @ new"
  shows "r = Inl (Wrap err ''failed to decrypt olm event with session created from prekey message'') \<and>
         r \<noteq> Inl DecryptionFailedWithMatchingSession \<and>
         r \<noteq> Inl (Wrap DecryptionFailedWithMatchingSession ''failed to decrypt olm event'') \<and>
         \<not> list_ex is_unwedging new"
proof -
  from try_no_unwedging[OF assms(1)] obtain n1 where
    n1: "calls st1 = calls st @ n1" "\<not> list_ex is_unwedging n1" by blast
  from createInboundSession_no_unwedging[OF assms(2)] obtain n2 where
    n2: "calls st2 = calls st1 @ n2" "\<not> list_ex is_unwedging n2" by blast
  have "decryptOlmEvent mach evt k OlmMsgTypePreKey c st =
       (Inl (Wrap err ''failed to decrypt olm event with session created from prekey message''),
        \<lparr>world = w3, calls = calls st @ n1 @ n2 @ [DecryptCall s c OlmMsgTypePreKey (Inl err)]\<rparr>)"
    using assms(1,2,3) n1(1) n2(1)
    by (simp add: decryptOlmEvent_def decryptOlmEvent_plaintext_def call_Decrypt_def)
  with assms(4,5) have "r = Inl (Wrap err ''failed to decrypt olm event with session created from prekey message'')"
    and "new = n1 @ n2 @ [DecryptCall s c OlmMsgTypePreKey (Inl err)]"
    by auto
  then show ?thesis using n1(2) n2(2) by simp
qed

theorem decryptOlmEvent_new_session_decrypt_fails_no_unwedging_witness:
  "\<not> list_ex is_unwedging
       [GetSessionsCall ''SENDER1'' (Inr [1]),
        MatchesInboundSessionCall 1 ''corrupt'' (Inr False),
        NewInboundSessionFromCall ''SENDER1'' ''corrupt'' (Inr 9),
        SaveAccountCall,
        AddSessionCall ''SENDER1'' 9 None,
        DecryptCall 9 ''corrupt'' OlmMsgTypePreKey (Inl (External ''bad mac''))] \<and>
   Inl (Wrap (External ''bad mac'')
          ''failed to decrypt olm event with session created from prekey message'') \<noteq>
     (Inl (Wrap DecryptionFailedWithMatchingSession ''failed to decrypt olm event'')
        :: error + OlmEvent)"
  using decryptOlmEvent_new_session_decrypt_fails_no_unwedging[OF example_trial_inconclusive
          example_bootstrap example_new_session_decrypt example_run_corrupt,
          of "[GetSessionsCall ''SENDER1'' (Inr [1]),
        MatchesInboundSessionCall 1 ''corrupt'' (Inr False),
        NewInboundSessionFromCall ''SENDER1'' ''corrupt'' (Inr 9),
        SaveAccountCall,
        AddSessionCall ''SENDER1'' 9 None,
        DecryptCall 9 ''corrupt'' OlmMsgTypePreKey (Inl (External ''bad mac''))]"]
  by (simp add: example_store_def)

text \<open>
  Claim C5. For a pre-key message, when the trial pass is inconclusive,
  \<open>createInboundSession\<close> succeeds and the decrypt with the new session fails,
  \<open>decryptOlmEvent\<close> returns the failure wrapped; the failed \<open>Decrypt\<close> is the last call
  of the run (nothing else is tried), and none of the calls before it is a
  \<open>markDeviceForUnwedging\<close>.
\<close>

theorem decryptOlmEvent_new_session_decrypt_fails:
  assumes "tryDecryptOlmEvent mach k OlmMsgTypePreKey c st = (Inr None, st1)"
    and "createInboundSession mach k c st1 = (Inr s, st2)"
    and "Decrypt mach s c OlmMsgTypePreKey (world st2) = (Inl err, w3)"
  shows "\<exists>new. \<not> list_ex is_unwedging new \<and>
     decryptOlmEvent mach evt k OlmMsgTypePreKey c st =
       (Inl (Wrap err ''failed to decrypt olm event with session created from prekey message''),
        \<lparr>world = w3, calls = calls st @ new @ [DecryptCall s c OlmMsgTypePreKey (Inl err)]\<rparr>)"
proof -
  from try_no_unwedging[OF assms(1)] obtain n1 where
    n1: "calls st1 = calls st @ n1" "\<not> list_ex is_unwedging n1" by blast
  from createInboundSession_no_unwedging[OF assms(2)] obtain n2 where
    n2: "calls st2 = calls st1 @ n2" "\<not> list_ex is_unwedging n2" by blast
  have "decryptOlmEvent mach evt k OlmMsgTypePreKey c st =
       (Inl (Wrap err ''failed to decrypt olm event with session created from prekey message''),
        \<lparr>world = w3, calls = calls st @ (n1 @ n2) @ [DecryptCall s c OlmMsgTypePreKey (Inl err)]\<rparr>)"
    using assms n1(1) n2(1)
    by (simp add: decryptOlmEvent_def decryptOlmEvent_plaintext_def call_Decrypt_def)
  moreover have "\<not> list_ex is_unwedging (n1 @ n2)" using n1(2) n2(2) by simp
  ultimately show ?thesis by blast
qed

theorem decryptOlmEvent_new_session_decrypt_fails_witness:
  "\<exists>new. \<not> list_ex is_unwedging new \<and>
     decryptOlmEvent example_mach example_plain_evt ''SENDER1'' OlmMsgTypePreKey ''corrupt''
         (example_store [1]) =
       (Inl (Wrap (External ''bad mac'')
               ''failed to decrypt olm event with session created from prekey message''),
        \<lparr>world = [1, 9],
         calls = calls (example_store [1]) @ new @
                   [DecryptCall 9 ''corrupt'' OlmMsgTypePreKey (Inl (External ''bad mac''))]\<rparr>)"
  by (rule decryptOlmEvent_new_session_decrypt_fails[OF example_trial_inconclusive
             example_bootstrap example_new_session_decrypt])

text \<open>
  Claim C6. When the plaintext was obtained, parses as a payload and passes the three
  checks: if the registry has no entry for the payload's declared type, \<open>decryptOlmEvent\<close>
  returns the payload with its content as it was (raw, not parsed), the source event and
  the sender key attached; if the registry has a schema and the raw content does not parse
  by it, \<open>decryptOlmEvent\<close> returns that failure wrapped.
\<close>

theorem decryptOlmEvent_unsupported_content_type:
  assumes "decryptOlmEvent_plaintext mach evt k t c st = (Inr p, st1)"
    and "json_Unmarshal mach p = Inr payload"
    and "evt_Sender evt = Sender payload"
    and "client_UserID mach = Recipient payload"
    and "fst (IdentityKeys mach (world st1)) = Ed25519 (RecipientKeys payload)"
  shows "(TypeMap mach (Type payload) = None \<longrightarrow>
            decryptOlmEvent mach evt k t c st =
              (Inr (payload\<lparr>Source := Some evt, SenderKey := k\<rparr>), st1)) \<and>
         (\<forall>schema msg. TypeMap mach (Type payload) = Some schema \<and>
            schema (VeryRaw (Content payload)) = Inl msg \<longrightarrow>
            decryptOlmEvent mach evt k t c st =
              (Inl (Wrap (External msg) ''failed to parse content of olm payload event''), st1))"
  using assms
  by (simp add: decryptOlmEvent_def decryptOlmEvent_payload_def ParseRaw_def
        IsUnsupportedContentType_def)

theorem decryptOlmEvent_unsupported_content_type_witness:
  "decryptOlmEvent example_mach example_plain_evt ''SENDER1'' OlmMsgTypeMsg ''custom''
       (example_store [4]) =
     (Inr ((example_payload ''@bob'' ''x.custom'' ''{}'')
             \<lparr>Source := Some example_plain_evt, SenderKey := ''SENDER1''\<rparr>),
      \<lparr>world = [4],
       calls = [GetSessionsCall ''SENDER1'' (Inr [4]),
                DecryptCall 4 ''custom'' OlmMsgTypeMsg (Inr (Some ''custom''))]\<rparr>)"
  using decryptOlmEvent_unsupported_content_type[OF example_plaintext_custom,
          of "example_payload ''@bob'' ''x.custom'' ''{}''"]
  by (simp add: example_mach_def example_payload_def example_plain_evt_def)

text \<open>
  Claim C7. When \<open>NewInboundSessionFrom\<close> succeeds with a session \<open>s\<close>,
  \<open>createInboundSession\<close> returns \<open>s\<close> whatever \<open>AddSession\<close> answered, and its calls
  are, in this order: \<open>NewInboundSessionFrom\<close>, \<open>SaveAccount\<close>, \<open>AddSession\<close>, and the
  error log entry when \<open>AddSession\<close> failed. After an inconclusive trial pass on a pre-key
  message the next call of \<open>decryptOlmEvent\<close> is the \<open>Decrypt\<close> with \<open>s\<close>, and the result
  is that decrypt's failure wrapped or what the payload phase makes of its plaintext: the
  error of \<open>AddSession\<close> is not returned.
\<close>

theorem createInboundSession_saves_account_first:
  assumes "NewInboundSessionFrom mach k c (world st1) = (Inr s, w1)"
    and "AddSession mach k s (SaveAccount mach w1) = (added, w2)"
    and "Decrypt mach s c OlmMsgTypePreKey w2 = (d, w3)"
  shows "createInboundSession mach k c st1 =
           (Inr s, \<lparr>world = w2, calls = calls st1 @ createInboundSession_calls k c s added\<rparr>) \<and>
         (tryDecryptOlmEvent mach k OlmMsgTypePreKey c st = (Inr None, st1) \<longrightarrow>
          (\<exists>st3. calls st3 = calls st1 @ createInboundSession_calls k c s added @
                                 [DecryptCall s c OlmMsgTypePreKey d] \<and>
             decryptOlmEvent mach evt k OlmMsgTypePreKey c st =
               (case d of
                  Inl err \<Rightarrow> Inl (Wrap err
                    ''failed to decrypt olm event with session created from prekey message'')
                | Inr plaintext \<Rightarrow> decryptOlmEvent_payload mach evt k plaintext st3, st3)))"
proof -
  note b = createInboundSession_success[OF assms(1,2)]
  let ?st3 = "\<lparr>world = w3, calls = calls st1 @ createInboundSession_calls k c s added @
                                 [DecryptCall s c OlmMsgTypePreKey d]\<rparr>"
  have "decryptOlmEvent mach evt k OlmMsgTypePreKey c st =
               (case d of
                  Inl err \<Rightarrow> Inl (Wrap err
                    ''failed to decrypt olm event with session created from prekey message'')
                | Inr plaintext \<Rightarrow> decryptOlmEvent_payload mach evt k plaintext ?st3, ?st3)"
    if "tryDecryptOlmEvent mach k OlmMsgTypePreKey c st = (Inr None, st1)"
    using that b assms(3)
    by (cases d) (simp_all add: decryptOlmEvent_def decryptOlmEvent_plaintext_def call_Decrypt_def)
  moreover have "calls ?st3 = calls st1 @ createInboundSession_calls k c s added @
                                 [DecryptCall s c OlmMsgTypePreKey d]" by simp
  ultimately show ?thesis using b by blast
qed

theorem createInboundSession_saves_account_first_witness:
  "createInboundSession example_mach ''SENDER1'' ''msg''
       \<lparr>world = [5, 6],
        calls = [GetSessionsCall ''SENDER1'' (Inr [5, 6]),
                 MatchesInboundSessionCall 5 ''msg'' (Inr False),
                 MatchesInboundSessionCall 6 ''msg'' (Inr False)]\<rparr> =
     (Inr 9,
      \<lparr>world = [5, 6],
       calls = [GetSessionsCall ''SENDER1'' (Inr [5, 6]),
                MatchesInboundSessionCall 5 ''msg'' (Inr False),
                MatchesInboundSessionCall 6 ''msg'' (Inr False),
                NewInboundSessionFromCall ''SENDER1'' ''msg'' (Inr 9),
                SaveAccountCall,
                AddSessionCall ''SENDER1'' 9 (Some (External ''store full'')),
                LogErrorCall (External ''store full'')]\<rparr>) \<and>
   (\<exists>st3. decryptOlmEvent example_mach example_plain_evt ''SENDER1'' OlmMsgTypePreKey ''msg''
             (example_store [5, 6]) =
           (Inr ((example_payload ''@bob'' ''m.room.message'' ''{}'')
                   \<lparr>Content := \<lparr>VeryRaw = ''{}'',
                                 Parsed = Some (OtherContent ''MessageEventContent'')\<rparr>,
                    Source := Some example_plain_evt, SenderKey := ''SENDER1''\<rparr>), st3) \<and>
          calls st3 =
            [GetSessionsCall ''SENDER1'' (Inr [5, 6]),
             MatchesInboundSessionCall 5 ''msg'' (Inr False),
             MatchesInboundSessionCall 6 ''msg'' (Inr False),
             NewInboundSessionFromCall ''SENDER1'' ''msg'' (Inr 9),
             SaveAccountCall,
             AddSessionCall ''SENDER1'' 9 (Some (External ''store full'')),
             LogErrorCall (External ''store full''),
             DecryptCall 9 ''msg'' OlmMsgTypePreKey (Inr (Some ''msg''))])"
proof -
  let ?st1 = "\<lparr>world = [5, 6],
        calls = [GetSessionsCall ''SENDER1'' (Inr [5, 6]),
                 MatchesInboundSessionCall 5 ''msg'' (Inr False),
                 MatchesInboundSessionCall 6 ''msg'' (Inr False)]\<rparr> :: OlmSession list state"
  have new: "NewInboundSessionFrom example_mach ''SENDER1'' ''msg'' (world ?st1) = (Inr 9, [5, 6])"
    by (simp add: example_mach_def)
  have add: "AddSession example_mach ''SENDER1'' 9 (SaveAccount example_mach [5, 6]) =
               (Some (External ''store full''), [5, 6])"
    by (simp add: example_mach_def)
  have dec: "Decrypt example_mach 9 ''msg'' OlmMsgTypePreKey [5, 6] = (Inr (Some ''msg''), [5, 6])"
    by (simp add: example_mach_def)
  have pay: "decryptOlmEvent_payload example_mach example_plain_evt ''SENDER1'' (Some ''msg'') st3 =
          Inr ((example_payload ''@bob'' ''m.room.message'' ''{}'')
                   \<lparr>Content := \<lparr>VeryRaw = ''{}'',
                                 Parsed = Some (OtherContent ''MessageEventContent'')\<rparr>,
                    Source := Some example_plain_evt, SenderKey := ''SENDER1''\<rparr>)" for st3
    by (simp add: decryptOlmEvent_payload_def example_mach_def example_payload_def
          example_plain_evt_def ParseRaw_def)
  from createInboundSession_saves_account_first[OF new add dec,
         of "example_store [5, 6]" example_plain_evt] example_trial_full_store
  show ?thesis
    by (auto simp: createInboundSession_calls_def pay)
qed

text \<open>
  Claim C8. For an event whose content is an encrypted event content, \<open>DecryptOlmEvent\<close>
  returns \<open>UnsupportedAlgorithm\<close> when the algorithm is not Olm v1; with the Olm v1
  algorithm, \<open>NotEncryptedForMe\<close> when the ciphertext map has no entry under the
  account's identity key; with such an entry, \<open>UnsupportedOlmMessageType\<close> when its type is
  neither pre-key nor normal. In each case the state is returned unchanged: no collaborator
  is called and the world is the same.
\<close>

theorem DecryptOlmEvent_input_errors:
  assumes "Parsed (evt_Content evt) = Some (EncryptedContent content)"
  shows "(Algorithm content \<noteq> AlgorithmOlmV1 \<longrightarrow>
            DecryptOlmEvent mach evt st = (Inl UnsupportedAlgorithm, st)) \<and>
         (Algorithm content = AlgorithmOlmV1 \<and>
          OlmCiphertext content (snd (IdentityKeys mach (world st))) = None \<longrightarrow>
            DecryptOlmEvent mach evt st = (Inl NotEncryptedForMe, st)) \<and>
         (\<forall>ownContent. Algorithm content = AlgorithmOlmV1 \<and>
            OlmCiphertext content (snd (IdentityKeys mach (world st))) = Some ownContent \<and>
            ct_Type ownContent \<noteq> OlmMsgTypePreKey \<and> ct_Type ownContent \<noteq> OlmMsgTypeMsg \<longrightarrow>
            DecryptOlmEvent mach evt st = (Inl UnsupportedOlmMessageType, st))"
  using assms
  by (simp add: DecryptOlmEvent_def decryptOlmEvent_def decryptOlmEvent_plaintext_def)

theorem DecryptOlmEvent_input_errors_witness:
  "DecryptOlmEvent example_mach
       (example_evt ''m.megolm.v1.aes-sha2'' ''CURVE1'' OlmMsgTypePreKey ''msg'')
       (example_store [4]) = (Inl UnsupportedAlgorithm, example_store [4]) \<and>
   DecryptOlmEvent example_mach
       (example_evt AlgorithmOlmV1 ''CURVE2'' OlmMsgTypePreKey ''msg'')
       (example_store [4]) = (Inl NotEncryptedForMe, example_store [4]) \<and>
   DecryptOlmEvent example_mach
       (example_evt AlgorithmOlmV1 ''CURVE1'' (OlmMsgTypeUnknown 2) ''msg'')
       (example_store [4]) = (Inl UnsupportedOlmMessageType, example_store [4])"
  using
    DecryptOlmEvent_input_errors[
      of "example_evt ''m.megolm.v1.aes-sha2'' ''CURVE1'' OlmMsgTypePreKey ''msg''"
         "\<lparr>Algorithm = ''m.megolm.v1.aes-sha2'', enc_SenderKey = ''SENDER1'',
           OlmCiphertext = [''CURVE1'' \<mapsto> \<lparr>ct_Type = OlmMsgTypePreKey, ct_Body = ''msg''\<rparr>]\<rparr>"
         example_mach "example_store [4]"]
    DecryptOlmEvent_input_errors[
      of "example_evt AlgorithmOlmV1 ''CURVE2'' OlmMsgTypePreKey ''msg''"
         "\<lparr>Algorithm = AlgorithmOlmV1, enc_SenderKey = ''SENDER1'',
           OlmCiphertext = [''CURVE2'' \<mapsto> \<lparr>ct_Type = OlmMsgTypePreKey, ct_Body = ''msg''\<rparr>]\<rparr>"
         example_mach "example_store [4]"]
    DecryptOlmEvent_input_errors[
      of "example_evt AlgorithmOlmV1 ''CURVE1'' (OlmMsgTypeUnknown 2) ''msg''"
         "\<lparr>Algorithm = AlgorithmOlmV1, enc_SenderKey = ''SENDER1'',
           OlmCiphertext = [''CURVE1'' \<mapsto> \<lparr>ct_Type = OlmMsgTypeUnknown 2, ct_Body = ''msg''\<rparr>]\<rparr>"
         example_mach "example_store [4]"]
  by (simp add: example_evt_def example_mach_def AlgorithmOlmV1_def)

text \<open>
  Claim C9. The claim is about the pass, so it is read off the calls the trial pass made:
  for a pre-key message, if the trial pass has a \<open>MatchesInboundSession\<close> of a session
  \<open>s\<close> that returned an error, \<open>tryDecryptOlmEvent\<close> returns that error wrapped, the calls of the pass are the read of
  the store, the checks of the sessions before \<open>s\<close> (all answered false) and the failed
  check of \<open>s\<close>, and \<open>decryptOlmEvent\<close> returns the error wrapped once more in the state
  the trial pass ended in: no later session is touched and no \<open>markDeviceForUnwedging\<close> is
  called.
\<close>

theorem tryDecryptOlmEvent_match_error:
  assumes "tryDecryptOlmEvent mach k OlmMsgTypePreKey c st = (r1, st1)"
    and "calls st1 = calls st @ trial"
    and "MatchesInboundSessionCall s c (Inl err) \<in> set trial"
  shows "r1 = Inl (Wrap err ''failed to check if ciphertext matches inbound session'') \<and>
    (\<exists>pre post. fst (GetSessions mach k (world st)) = Inr (pre @ s # post) \<and>
       trial = GetSessionsCall k (Inr (pre @ s # post)) # skipped c pre @
                 [MatchesInboundSessionCall s c (Inl err)]) \<and>
    decryptOlmEvent mach evt k OlmMsgTypePreKey c st =
      (Inl (Wrap (Wrap err ''failed to check if ciphertext matches inbound session'')
              ''failed to decrypt olm event''), st1)"
proof -
  from try_PreKey[OF assms(1)] assms(2,3)
  have a: "r1 = Inl (Wrap err ''failed to check if ciphertext matches inbound session'') \<and>
    (\<exists>pre post. fst (GetSessions mach k (world st)) = Inr (pre @ s # post) \<and>
       trial = GetSessionsCall k (Inr (pre @ s # post)) # skipped c pre @
                 [MatchesInboundSessionCall s c (Inl err)])"
    by (elim disjE exE conjE; auto simp: skipped_mem; blast)
  then have "decryptOlmEvent mach evt k OlmMsgTypePreKey c st =
      (Inl (Wrap (Wrap err ''failed to check if ciphertext matches inbound session'')
              ''failed to decrypt olm event''), st1)"
    using assms(1) by (simp add: decryptOlmEvent_def decryptOlmEvent_plaintext_def)
  with a show ?thesis by blast
qed

theorem tryDecryptOlmEvent_match_error_witness:
  "decryptOlmEvent example_mach example_plain_evt ''SENDER1'' OlmMsgTypePreKey ''msg''
       (example_store [1, 3, 2]) =
     (Inl (Wrap (Wrap (External ''bad pickle'')
                   ''failed to check if ciphertext matches inbound session'')
             ''failed to decrypt olm event''),
      \<lparr>world = [1, 3, 2],
       calls = [GetSessionsCall ''SENDER1'' (Inr [1, 3, 2]),
                MatchesInboundSessionCall 1 ''msg'' (Inr False),
                MatchesInboundSessionCall 3 ''msg'' (Inl (External ''bad pickle''))]\<rparr>)"
  using tryDecryptOlmEvent_match_error[OF example_trial_match_error,
          of "[GetSessionsCall ''SENDER1'' (Inr [1, 3, 2]),
               MatchesInboundSessionCall 1 ''msg'' (Inr False),
               MatchesInboundSessionCall 3 ''msg'' (Inl (External ''bad pickle''))]"
             3 "External ''bad pickle''" example_plain_evt]
  by (simp add: example_store_def)

text \<open>
  Claim C10. For an event whose parsed content is not an encrypted event content,
  \<open>DecryptOlmEvent\<close> returns \<open>IncorrectEncryptedContentType\<close> with the state unchanged,
  whatever else the event holds; this error is none of the eight errors declared in lines
  18 to 27.
\<close>

theorem DecryptOlmEvent_incorrect_content_type:
  assumes "\<forall>content. Parsed (evt_Content evt) \<noteq> Some (EncryptedContent content)"
  shows "DecryptOlmEvent mach evt st = (Inl IncorrectEncryptedContentType, st) \<and>
         IncorrectEncryptedContentType \<notin>
           {UnsupportedAlgorithm, NotEncryptedForMe, UnsupportedOlmMessageType,
            DecryptionFailedWithMatchingSession, DecryptionFailedForNormalMessage,
            SenderMismatch, RecipientMismatch, RecipientKeyMismatch}"
  using assms
  by (auto simp: DecryptOlmEvent_def split: option.splits ParsedContent.splits)

theorem DecryptOlmEvent_incorrect_content_type_witness:
  "DecryptOlmEvent example_mach example_plain_evt (example_store [4]) =
     (Inl IncorrectEncryptedContentType, example_store [4])"
  using DecryptOlmEvent_incorrect_content_type[of example_plain_evt example_mach "example_store [4]"]
  by (simp add: example_plain_evt_def)

end
